theory Spec2Isabelle
  imports Complex_Main "HOL-Library.Multiset"
begin

section \<open>Tables of the post-processor\<close>

text \<open>
  The script \<^verbatim>\<open>3_Partial_Agonist_Postprocessor.py\<close> works on pandas tables. A cell is a
  number, a string or the missing value; floating-point numbers are idealised as reals and the
  missing value (\<open>NaN\<close>) is kept apart from every number. A \<open>Series\<close> is an ordered list of
  labelled cells; a \<open>DataFrame\<close> has its column names and its rows, each row with the row label
  it got when the file was read.
\<close>

datatype cell = Num real | Str string | NaN

type_synonym series = "(string \<times> cell) list"

record dataframe =
  columns :: "string list"
  rows :: "(nat \<times> series) list"

datatype error =
    MissingColumns "string list"
  | KeyError string
  | TypeError
  | ConstructorError
  | NotInList string
  | IndexError
  | AttributeError

text \<open>
  \<open>MissingColumns\<close> is the \<open>ValueError\<close> of line 56 with the list it prints;
  \<open>ConstructorError\<close> is what \<open>pd.DataFrame\<close> raises on a list that holds a frame;
  \<open>NotInList\<close> is the \<open>ValueError\<close> of \<open>list.index\<close>; \<open>IndexError\<close> is \<open>iloc[0]\<close>
  on an empty series; \<open>AttributeError\<close> is the \<open>.str\<close> accessor on a column without strings.
\<close>

definition cell_at :: "series \<Rightarrow> string \<Rightarrow> cell" where
  "cell_at s k = (case map_of s k of Some v \<Rightarrow> v | None \<Rightarrow> NaN)"

definition item :: "series \<Rightarrow> string \<Rightarrow> error + cell" where
  "item s k = (case map_of s k of Some v \<Rightarrow> Inr v | None \<Rightarrow> Inl (KeyError k))"

fun set_item :: "series \<Rightarrow> string \<Rightarrow> cell \<Rightarrow> series" where
  "set_item [] k v = [(k, v)]"
| "set_item ((k', v') # s) k v =
     (if k' = k then (k, v) # s else (k', v') # set_item s k v)"

definition column :: "dataframe \<Rightarrow> string \<Rightarrow> cell list" where
  "column df k = map (\<lambda>r. cell_at (snd r) k) (rows df)"

definition labels :: "dataframe \<Rightarrow> nat list" where
  "labels df = map fst (rows df)"

definition align :: "string list \<Rightarrow> series \<Rightarrow> series" where
  "align cols s = map (\<lambda>c. (c, cell_at s c)) cols"

section \<open>Schema validation (lines 53 to 56)\<close>

definition required_columns :: "string list" where
  "required_columns = [''Title'', ''MPO_score'', ''norm_docking_score'', ''docking score'']"

definition missing_cols :: "dataframe \<Rightarrow> string list" where
  "missing_cols df = filter (\<lambda>col. col \<notin> set (columns df)) required_columns"

definition validate :: "dataframe \<Rightarrow> error + dataframe" where
  "validate df = (if missing_cols df \<noteq> [] then Inl (MissingColumns (missing_cols df)) else Inr df)"

section \<open>Pair aggregation (lines 59 to 78)\<close>

text \<open>
  Python's arithmetic on cells: numbers add, subtract and divide as numbers, the missing value
  propagates, and a string raises \<open>TypeError\<close> (two strings concatenate under \<open>+\<close>, and the
  division by 2 that follows raises).
\<close>

fun py_add :: "cell \<Rightarrow> cell \<Rightarrow> error + cell" where
  "py_add (Num a) (Num b) = Inr (Num (a + b))"
| "py_add (Str a) (Str b) = Inr (Str (a @ b))"
| "py_add (Str a) _ = Inl TypeError"
| "py_add _ (Str b) = Inl TypeError"
| "py_add _ _ = Inr NaN"

fun py_sub :: "cell \<Rightarrow> cell \<Rightarrow> error + cell" where
  "py_sub (Num a) (Num b) = Inr (Num (a - b))"
| "py_sub (Str a) _ = Inl TypeError"
| "py_sub _ (Str b) = Inl TypeError"
| "py_sub _ _ = Inr NaN"

fun py_half :: "cell \<Rightarrow> error + cell" where
  "py_half (Num a) = Inr (Num (a / 2))"
| "py_half (Str a) = Inl TypeError"
| "py_half NaN = Inr NaN"

fun py_abs :: "cell \<Rightarrow> error + cell" where
  "py_abs (Num a) = Inr (Num \<bar>a\<bar>)"
| "py_abs (Str a) = Inl TypeError"
| "py_abs NaN = Inr NaN"

definition mean2 :: "cell \<Rightarrow> cell \<Rightarrow> error + cell" where
  "mean2 a b = (case py_add a b of Inl e \<Rightarrow> Inl e | Inr s \<Rightarrow> py_half s)"

definition absdiff :: "cell \<Rightarrow> cell \<Rightarrow> error + cell" where
  "absdiff a b = (case py_sub a b of Inl e \<Rightarrow> Inl e | Inr d \<Rightarrow> py_abs d)"

definition on_items ::
  "(cell \<Rightarrow> cell \<Rightarrow> error + cell) \<Rightarrow> series \<Rightarrow> series \<Rightarrow> string \<Rightarrow> error + cell" where
  "on_items f row1 row2 k =
     (case item row1 k of Inl e \<Rightarrow> Inl e
      | Inr a \<Rightarrow> (case item row2 k of Inl e \<Rightarrow> Inl e | Inr b \<Rightarrow> f a b))"

text \<open>
  \<open>groupby('Title', sort=False)\<close>: the groups in the order their key is first seen, each with
  its rows in table order; rows whose key is missing belong to no group (pandas drops them).
\<close>

definition first_seen :: "'a list \<Rightarrow> 'a list" where
  "first_seen xs = rev (remdups (rev xs))"

definition groupby :: "string \<Rightarrow> dataframe \<Rightarrow> error + (cell \<times> (nat \<times> series) list) list" where
  "groupby k df =
     (if k \<notin> set (columns df) then Inl (KeyError k)
      else let keyed = filter (\<lambda>r. cell_at (snd r) k \<noteq> NaN) (rows df);
               names = first_seen (map (\<lambda>r. cell_at (snd r) k) keyed)
           in Inr (map (\<lambda>name. (name, filter (\<lambda>r. cell_at (snd r) k = name) keyed)) names))"

text \<open>
  The elements of \<open>processed_rows\<close>: a group that is not a pair is appended as the frame it is
  (line 64), a pair as its two tagged rows (line 76).
\<close>

datatype chunk = Frame "(nat \<times> series) list" | Row "nat \<times> series"

definition tag :: "series \<Rightarrow> cell \<Rightarrow> cell \<Rightarrow> cell \<Rightarrow> cell \<Rightarrow> series" where
  "tag row avg_mpo delta_mpo avg_dock delta_dock =
     set_item (set_item (set_item (set_item row ''Avg_MPO'' avg_mpo) ''Delta_MPO'' delta_mpo)
       ''Avg_norm_docking'' avg_dock) ''Delta_norm_docking'' delta_dock"

fun process_group :: "(nat \<times> series) list \<Rightarrow> error + chunk list" where
  "process_group [(i1, row1), (i2, row2)] =
     (case on_items mean2 row1 row2 ''MPO_score'' of Inl e \<Rightarrow> Inl e
      | Inr avg_mpo \<Rightarrow>
     (case on_items absdiff row1 row2 ''MPO_score'' of Inl e \<Rightarrow> Inl e
      | Inr delta_mpo \<Rightarrow>
     (case on_items mean2 row1 row2 ''norm_docking_score'' of Inl e \<Rightarrow> Inl e
      | Inr avg_dock \<Rightarrow>
     (case on_items absdiff row1 row2 ''norm_docking_score'' of Inl e \<Rightarrow> Inl e
      | Inr delta_dock \<Rightarrow>
        Inr [Row (i1, tag row1 avg_mpo delta_mpo avg_dock delta_dock),
             Row (i2, tag row2 avg_mpo delta_mpo avg_dock delta_dock)]))))"
| "process_group members = Inr [Frame members]"

fun processed_rows :: "(cell \<times> (nat \<times> series) list) list \<Rightarrow> error + chunk list" where
  "processed_rows [] = Inr []"
| "processed_rows ((name, members) # gs) =
     (case process_group members of Inl e \<Rightarrow> Inl e
      | Inr cs \<Rightarrow> (case processed_rows gs of Inl e \<Rightarrow> Inl e | Inr rest \<Rightarrow> Inr (cs @ rest)))"

text \<open>
  \<open>pd.DataFrame(processed_rows)\<close> (line 78). On a list of series the constructor makes one
  row per series, under the union of their labels in first-seen order, a cell that a series
  lacks being missing. It does not concatenate frames: a list that holds a frame makes it raise
  (\<open>ValueError: Must pass 2-d input\<close> when the frame comes first, \<open>AttributeError\<close>
  on the frame's missing \<open>dtype\<close> when a series comes first).
\<close>

fun series_of :: "chunk list \<Rightarrow> (nat \<times> series) list option" where
  "series_of [] = Some []"
| "series_of (Row r # cs) = map_option ((#) r) (series_of cs)"
| "series_of (Frame g # cs) = None"

definition union_index :: "series list \<Rightarrow> string list" where
  "union_index ss = first_seen (concat (map (map fst) ss))"

definition DataFrame :: "chunk list \<Rightarrow> error + dataframe" where
  "DataFrame data =
     (case series_of data of None \<Rightarrow> Inl ConstructorError
      | Some rs \<Rightarrow>
          let cols = union_index (map snd rs)
          in Inr \<lparr>columns = cols, rows = map (\<lambda>r. (fst r, align cols (snd r))) rs\<rparr>)"

definition processed_df :: "dataframe \<Rightarrow> error + dataframe" where
  "processed_df df =
     (case groupby ''Title'' df of Inl e \<Rightarrow> Inl e
      | Inr grouped \<Rightarrow>
          (case processed_rows grouped of Inl e \<Rightarrow> Inl e | Inr data \<Rightarrow> DataFrame data))"

section \<open>Column arrangement (lines 81 to 88 and 95 to 105)\<close>

fun index_of :: "'a \<Rightarrow> 'a list \<Rightarrow> nat option" where
  "index_of x [] = None"
| "index_of x (y # ys) = (if y = x then Some 0 else map_option Suc (index_of x ys))"

definition strip_cols :: "string list \<Rightarrow> string list \<Rightarrow> string list" where
  "strip_cols names cols = fold remove1 names cols"

definition arrange :: "string list \<Rightarrow> string list \<Rightarrow> string list \<Rightarrow> error + string list" where
  "arrange strip ins cols =
     (let cs = strip_cols strip cols
      in case index_of ''Title'' cs of
           None \<Rightarrow> Inl (NotInList ''Title'')
         | Some i \<Rightarrow> Inr (take (i + 1) cs @ ins @ drop (i + 1) cs))"

definition mpo_strip :: "string list" where
  "mpo_strip = [''Avg_MPO'', ''Delta_MPO'', ''Avg_norm_docking'', ''Delta_norm_docking'',
                ''MPO_score'', ''norm_docking_score'']"

definition mpo_insert :: "string list" where
  "mpo_insert = [''Avg_MPO'', ''Delta_MPO'', ''MPO_score'', ''Avg_norm_docking'',
                 ''Delta_norm_docking'', ''norm_docking_score'']"

definition dock_strip :: "string list" where
  "dock_strip = [''Avg_MPO'', ''Delta_MPO'', ''MPO_score'', ''Avg_norm_docking'',
                 ''Delta_norm_docking'', ''norm_docking_score'', ''docking score'']"

definition dock_insert :: "string list" where
  "dock_insert = [''Avg_norm_docking'', ''Delta_norm_docking'', ''norm_docking_score'',
                  ''docking score'', ''Avg_MPO'', ''Delta_MPO'', ''MPO_score'']"

text \<open>\<open>df[cols]\<close>: the columns named, in the order named; \<open>KeyError\<close> on a name the frame lacks.\<close>

definition getitem_cols :: "dataframe \<Rightarrow> string list \<Rightarrow> error + dataframe" where
  "getitem_cols df cols =
     (case filter (\<lambda>c. c \<notin> set (columns df)) cols of
        c # _ \<Rightarrow> Inl (KeyError c)
      | [] \<Rightarrow> Inr \<lparr>columns = cols, rows = map (\<lambda>r. (fst r, align cols (snd r))) (rows df)\<rparr>)"

section \<open>Ranking (lines 89 and 106)\<close>

text \<open>
  \<open>sort_values(by=..., ascending=False)\<close> is called with the default \<open>kind='quicksort'\<close>,
  which pandas documents as not stable. pandas computes the order in \<open>nargsort\<close>: the missing
  keys are set aside, the present keys and their positions are reversed, numpy's \<open>argsort\<close>
  orders them, the result is reversed again, and the positions of the missing keys are put last.
  numpy's routine is outside the program; it is the parameter \<open>argsort\<close>, and \<open>argsort_ok\<close>
  is what numpy promises of it for any kind: a permutation of the positions that puts the keys in
  ascending order.
\<close>

fun is_Str :: "cell \<Rightarrow> bool" where
  "is_Str (Str s) = True"
| "is_Str _ = False"

fun num_of :: "cell \<Rightarrow> real" where
  "num_of (Num x) = x"
| "num_of _ = 0"

definition argsort_ok :: "real list \<Rightarrow> nat list \<Rightarrow> bool" where
  "argsort_ok ks p = (mset p = mset [0..<length ks] \<and> sorted (map (\<lambda>j. ks ! j) p))"

definition nargsort :: "(real list \<Rightarrow> nat list) \<Rightarrow> cell list \<Rightarrow> nat list" where
  "nargsort argsort items =
     (let idx = [0..<length items];
          non_nan_idx = rev (filter (\<lambda>i. items ! i \<noteq> NaN) idx);
          nan_idx = filter (\<lambda>i. items ! i = NaN) idx;
          non_nans = map (\<lambda>i. num_of (items ! i)) non_nan_idx
      in rev (map (\<lambda>j. non_nan_idx ! j) (argsort non_nans)) @ nan_idx)"

definition sort_values :: "(real list \<Rightarrow> nat list) \<Rightarrow> string \<Rightarrow> dataframe \<Rightarrow> error + dataframe" where
  "sort_values argsort by df =
     (if by \<notin> set (columns df) then Inl (KeyError by)
      else if filter is_Str (column df by) \<noteq> [] then Inl TypeError
      else Inr (df\<lparr>rows := map (\<lambda>i. rows df ! i) (nargsort argsort (column df by))\<rparr>))"

definition arranged :: "string list \<Rightarrow> string list \<Rightarrow> dataframe \<Rightarrow> error + dataframe" where
  "arranged strip ins p =
     (case arrange strip ins (columns p) of Inl e \<Rightarrow> Inl e | Inr cols \<Rightarrow> getitem_cols p cols)"

definition df_sorted_mpo :: "(real list \<Rightarrow> nat list) \<Rightarrow> dataframe \<Rightarrow> error + dataframe" where
  "df_sorted_mpo argsort p =
     (case arranged mpo_strip mpo_insert p of Inl e \<Rightarrow> Inl e
      | Inr q \<Rightarrow> sort_values argsort ''Avg_MPO'' q)"

definition df_sorted_dock :: "(real list \<Rightarrow> nat list) \<Rightarrow> dataframe \<Rightarrow> error + dataframe" where
  "df_sorted_dock argsort p =
     (case arranged dock_strip dock_insert p of Inl e \<Rightarrow> Inl e
      | Inr q \<Rightarrow> sort_values argsort ''Avg_norm_docking'' q)"

text \<open>
  Two instances of \<open>argsort\<close>, both within numpy's promise: insertion sort, which keeps equal
  keys in the order given, and its mirror image, which puts equal keys in the opposite order.
\<close>

definition argsort_stable :: "real list \<Rightarrow> nat list" where
  "argsort_stable ks = sort_key (\<lambda>j. ks ! j) [0..<length ks]"

definition argsort_mirror :: "real list \<Rightarrow> nat list" where
  "argsort_mirror ks = rev (sort_key (\<lambda>j. - (ks ! j)) [0..<length ks])"

section \<open>Benchmark filter and summary (lines 111 to 145)\<close>

text \<open>
  \<open>processed_df['Title'].str.lower().str.contains(benchmark_name, na=False)\<close>. pandas hands
  \<open>benchmark_name\<close> to Python's \<open>re\<close> module, so the test on a lower-cased title is the search
  of a compiled pattern; it is the parameter \<open>search\<close>. For a name without pattern characters
  the search is the substring test \<open>contains\<close>. A cell that is not a string does not match, and
  a column that holds no string has no \<open>.str\<close> accessor. Lower-casing is modelled on the ASCII
  letters.
\<close>

definition lower_char :: "char \<Rightarrow> char" where
  "lower_char c =
     (case map_of (zip ''ABCDEFGHIJKLMNOPQRSTUVWXYZ'' ''abcdefghijklmnopqrstuvwxyz'') c of
        Some l \<Rightarrow> l
      | None \<Rightarrow> c)"

definition lower :: "string \<Rightarrow> string" where
  "lower s = map lower_char s"

fun contains :: "string \<Rightarrow> string \<Rightarrow> bool" where
  "contains q [] = (q = [])"
| "contains q (c # s) = (take (length q) (c # s) = q \<or> contains q s)"

fun matches :: "(string \<Rightarrow> bool) \<Rightarrow> cell \<Rightarrow> bool" where
  "matches search (Str s) = search (lower s)"
| "matches search _ = False"

definition title_mask :: "(string \<Rightarrow> bool) \<Rightarrow> dataframe \<Rightarrow> error + bool list" where
  "title_mask search p =
     (if ''Title'' \<notin> set (columns p) then Inl (KeyError ''Title'')
      else if filter is_Str (column p ''Title'') = [] then Inl AttributeError
      else Inr (map (matches search) (column p ''Title'')))"

definition getitem_mask :: "dataframe \<Rightarrow> bool list \<Rightarrow> dataframe" where
  "getitem_mask df flags = df\<lparr>rows := map snd (filter fst (zip flags (rows df)))\<rparr>"

definition benchmark_row :: "(string \<Rightarrow> bool) \<Rightarrow> dataframe \<Rightarrow> error + dataframe" where
  "benchmark_row search p =
     (case title_mask search p of Inl e \<Rightarrow> Inl e | Inr flags \<Rightarrow> Inr (getitem_mask p flags))"

text \<open>\<open>sel[k].dropna().iloc[0]\<close>: the first present cell of column \<open>k\<close>.\<close>

definition first_present :: "dataframe \<Rightarrow> string \<Rightarrow> error + cell" where
  "first_present sel k =
     (if k \<notin> set (columns sel) then Inl (KeyError k)
      else case filter (\<lambda>c. c \<noteq> NaN) (column sel k) of
             [] \<Rightarrow> Inl IndexError
           | v # _ \<Rightarrow> Inr v)"

fun gt :: "cell \<Rightarrow> cell \<Rightarrow> bool" where
  "gt (Num a) (Num b) = (b < a)"
| "gt _ _ = False"

definition thresholds :: "dataframe \<Rightarrow> error + cell \<times> cell" where
  "thresholds sel =
     (case first_present sel ''Avg_MPO'' of Inl e \<Rightarrow> Inl e
      | Inr avg_mpo_benchmark \<Rightarrow>
          (case first_present sel ''Avg_norm_docking'' of Inl e \<Rightarrow> Inl e
           | Inr avg_norm_dock_benchmark \<Rightarrow> Inr (avg_mpo_benchmark, avg_norm_dock_benchmark)))"

definition better_than_benchmark :: "dataframe \<Rightarrow> cell \<times> cell \<Rightarrow> dataframe" where
  "better_than_benchmark p t =
     p\<lparr>rows := filter (\<lambda>r. gt (cell_at (snd r) ''Avg_MPO'') (fst t) \<and>
                            gt (cell_at (snd r) ''Avg_norm_docking'') (snd t))
                  (rows p)\<rparr>"

text \<open>
  The filter up to the append: nothing when no title matches, else the thresholds, the
  selection and the rows above both thresholds.
\<close>

record filtered =
  benchmark :: "cell \<times> cell"
  selection :: dataframe
  better :: dataframe

definition benchmark_filter :: "(string \<Rightarrow> bool) \<Rightarrow> dataframe \<Rightarrow> error + filtered option" where
  "benchmark_filter search p =
     (case benchmark_row search p of Inl e \<Rightarrow> Inl e
      | Inr sel \<Rightarrow>
          if rows sel = [] then Inr None
          else (case thresholds sel of Inl e \<Rightarrow> Inl e
                | Inr t \<Rightarrow>
                    Inr (Some \<lparr>benchmark = t, selection = sel,
                               better = better_than_benchmark p t\<rparr>)))"

text \<open>\<open>pd.concat([a, b], ignore_index=True)\<close>: the rows of \<open>a\<close>, then those of \<open>b\<close>, relabelled.\<close>

definition concat_ignore_index :: "dataframe \<Rightarrow> dataframe \<Rightarrow> dataframe" where
  "concat_ignore_index a b =
     (let cols = first_seen (columns a @ columns b);
          rs = map (\<lambda>r. align cols (snd r)) (rows a @ rows b)
      in \<lparr>columns = cols, rows = zip [0..<length rs] rs\<rparr>)"

definition key_cols :: "string list" where
  "key_cols = [''Title'', ''Avg_MPO'', ''Avg_norm_docking'', ''norm_docking_score'', ''docking score'']"

definition final_output :: "dataframe \<Rightarrow> dataframe \<Rightarrow> error + dataframe" where
  "final_output bt sel =
     (let both = concat_ignore_index bt sel;
          remaining_cols = filter (\<lambda>col. col \<notin> set key_cols) (columns both)
      in getitem_cols both (key_cols @ remaining_cols))"

text \<open>\<open>df[df[k] > v]['Title'].nunique()\<close>: the number of distinct present titles above \<open>v\<close>.\<close>

definition nunique_above :: "dataframe \<Rightarrow> string \<Rightarrow> cell \<Rightarrow> nat" where
  "nunique_above df k v =
     length (remdups (filter (\<lambda>c. c \<noteq> NaN)
       (map (\<lambda>r. cell_at (snd r) ''Title'') (filter (\<lambda>r. gt (cell_at (snd r) k) v) (rows df)))))"

definition nunique_title :: "dataframe \<Rightarrow> nat" where
  "nunique_title df =
     length (remdups (filter (\<lambda>c. c \<noteq> NaN) (column df ''Title'')))"

section \<open>The run\<close>

text \<open>
  What a run leaves behind: the files written, in order, the lines printed, and the exception
  that ended it, if one did.
\<close>

datatype out_file = Sorted_by_Avg_MPO | Sorted_by_Avg_normDocking | Above_benchmark_Compounds

datatype message = Benchmark_not_found | Processing_complete | Exceeded nat nat nat

record outcome =
  written :: "(out_file \<times> dataframe) list"
  printed :: "message list"
  raised :: "error option"

definition stop :: "(out_file \<times> dataframe) list \<Rightarrow> error \<Rightarrow> outcome" where
  "stop w e = \<lparr>written = w, printed = [], raised = Some e\<rparr>"

definition benchmark_stage ::
  "(string \<Rightarrow> bool) \<Rightarrow> dataframe \<Rightarrow> dataframe \<Rightarrow> dataframe \<Rightarrow> outcome" where
  "benchmark_stage search p m d =
     (let w = [(Sorted_by_Avg_MPO, m), (Sorted_by_Avg_normDocking, d)]
      in case benchmark_filter search p of Inl e \<Rightarrow> stop w e
         | Inr None \<Rightarrow> \<lparr>written = w, printed = [Benchmark_not_found], raised = None\<rparr>
         | Inr (Some f) \<Rightarrow>
             (case final_output (better f) (selection f) of Inl e \<Rightarrow> stop w e
              | Inr out \<Rightarrow>
                  \<lparr>written = w @ [(Above_benchmark_Compounds, out)],
                   printed = [Processing_complete,
                              Exceeded (nunique_above m ''Avg_MPO'' (fst (benchmark f)))
                                (nunique_above d ''Avg_norm_docking'' (snd (benchmark f)))
                                (nunique_title (better f))],
                   raised = None\<rparr>))"

definition run :: "(real list \<Rightarrow> nat list) \<Rightarrow> (string \<Rightarrow> bool) \<Rightarrow> dataframe \<Rightarrow> outcome" where
  "run argsort search df =
     (case validate df of Inl e \<Rightarrow> stop [] e
      | Inr df \<Rightarrow>
     (case processed_df df of Inl e \<Rightarrow> stop [] e
      | Inr p \<Rightarrow>
     (case df_sorted_mpo argsort p of Inl e \<Rightarrow> stop [] e
      | Inr m \<Rightarrow>
     (case df_sorted_dock argsort p of Inl e \<Rightarrow> stop [(Sorted_by_Avg_MPO, m)] e
      | Inr d \<Rightarrow> benchmark_stage search p m d))))"

section \<open>Example tables\<close>

definition input_row :: "nat \<Rightarrow> string \<Rightarrow> cell \<Rightarrow> cell \<Rightarrow> cell \<Rightarrow> nat \<times> series" where
  "input_row i title mpo dock raw =
     (i, [(''Title'', Str title), (''MPO_score'', mpo), (''norm_docking_score'', dock),
          (''docking score'', raw)])"

text \<open>The scenario of the specification: a pair \<open>A\<close> and a single row \<open>B\<close>.\<close>

definition scenario :: dataframe where
  "scenario =
     \<lparr>columns = required_columns,
      rows = [input_row 0 ''A'' (Num 0.8) (Num 0.6) (Num (- 7)),
              input_row 1 ''A'' (Num 0.6) (Num 0.4) (Num (- 6)),
              input_row 2 ''B'' (Num 0.5) (Num 0.5) (Num (- 5))]\<rparr>"

text \<open>Two pairs whose titles both contain \<open>c\<close>, the second above the first on both metrics.\<close>

definition two_pairs :: dataframe where
  "two_pairs =
     \<lparr>columns = required_columns,
      rows = [input_row 0 ''Ca'' (Num 0.6) (Num 0.4) (Num (- 7)),
              input_row 1 ''Ca'' (Num 0.4) (Num 0.6) (Num (- 6)),
              input_row 2 ''Cb'' (Num 0.9) (Num 0.9) (Num (- 5)),
              input_row 3 ''Cb'' (Num 0.9) (Num 0.9) (Num (- 4))]\<rparr>"

text \<open>Two pairs, the first with one MPO score missing in the file.\<close>

definition missing_score :: dataframe where
  "missing_score =
     \<lparr>columns = required_columns,
      rows = [input_row 0 ''Xa'' NaN (Num 0.6) (Num (- 7)),
              input_row 1 ''Xa'' (Num 0.4) (Num 0.4) (Num (- 6)),
              input_row 2 ''Xb'' (Num 0.9) (Num 0.9) (Num (- 5)),
              input_row 3 ''Xb'' (Num 0.7) (Num 0.9) (Num (- 4))]\<rparr>"

text \<open>A table without the columns \<open>MPO_score\<close> and \<open>docking score\<close>.\<close>

definition no_scores :: dataframe where
  "no_scores =
     \<lparr>columns = [''Title'', ''norm_docking_score''],
      rows = [(0, [(''Title'', Str ''A''), (''norm_docking_score'', Num 0.6)])]\<rparr>"

definition derived :: "string list" where
  "derived = [''Avg_MPO'', ''Delta_MPO'', ''Avg_norm_docking'', ''Delta_norm_docking'']"

definition output_row ::
  "nat \<times> series \<Rightarrow> cell \<Rightarrow> cell \<Rightarrow> cell \<Rightarrow> cell \<Rightarrow> nat \<times> series" where
  "output_row r avg_mpo delta_mpo avg_dock delta_dock =
     (fst r, snd r @ [(''Avg_MPO'', avg_mpo), (''Delta_MPO'', delta_mpo),
                      (''Avg_norm_docking'', avg_dock), (''Delta_norm_docking'', delta_dock)])"

text \<open>The aggregated tables of \<open>two_pairs\<close> and \<open>missing_score\<close>.\<close>

definition two_pairs_processed :: dataframe where
  "two_pairs_processed =
     \<lparr>columns = required_columns @ derived,
      rows = [output_row (input_row 0 ''Ca'' (Num 0.6) (Num 0.4) (Num (- 7)))
                (Num 0.5) (Num 0.2) (Num 0.5) (Num 0.2),
              output_row (input_row 1 ''Ca'' (Num 0.4) (Num 0.6) (Num (- 6)))
                (Num 0.5) (Num 0.2) (Num 0.5) (Num 0.2),
              output_row (input_row 2 ''Cb'' (Num 0.9) (Num 0.9) (Num (- 5)))
                (Num 0.9) (Num 0) (Num 0.9) (Num 0),
              output_row (input_row 3 ''Cb'' (Num 0.9) (Num 0.9) (Num (- 4)))
                (Num 0.9) (Num 0) (Num 0.9) (Num 0)]\<rparr>"

definition missing_score_processed :: dataframe where
  "missing_score_processed =
     \<lparr>columns = required_columns @ derived,
      rows = [output_row (input_row 0 ''Xa'' NaN (Num 0.6) (Num (- 7)))
                NaN NaN (Num 0.5) (Num 0.2),
              output_row (input_row 1 ''Xa'' (Num 0.4) (Num 0.4) (Num (- 6)))
                NaN NaN (Num 0.5) (Num 0.2),
              output_row (input_row 2 ''Xb'' (Num 0.9) (Num 0.9) (Num (- 5)))
                (Num 0.8) (Num 0.2) (Num 0.9) (Num 0),
              output_row (input_row 3 ''Xb'' (Num 0.7) (Num 0.9) (Num (- 4)))
                (Num 0.8) (Num 0.2) (Num 0.9) (Num 0)]\<rparr>"

section \<open>Evaluation\<close>

lemmas eval_defs = validate_def missing_cols_def required_columns_def input_row_def
  processed_df_def groupby_def cell_at_def first_seen_def on_items_def item_def mean2_def
  absdiff_def tag_def DataFrame_def stop_def union_index_def align_def

section \<open>Schema validation\<close>

text \<open>
  C6. A table that has the four required columns passes validation unchanged. A table that
  lacks one or more of them fails with an error that lists every missing required column and
  nothing else, and the run ends there: no file is written and nothing is printed.
\<close>

theorem schema_validation:
  "(set required_columns \<subseteq> set (columns df) \<longrightarrow> validate df = Inr df) \<and>
   (\<not> set required_columns \<subseteq> set (columns df) \<longrightarrow>
      missing_cols df \<noteq> [] \<and>
      set (missing_cols df) = set required_columns - set (columns df) \<and>
      validate df = Inl (MissingColumns (missing_cols df)) \<and>
      run argsort search df =
        \<lparr>written = [], printed = [], raised = Some (MissingColumns (missing_cols df))\<rparr>)"
proof -
  have m: "set (missing_cols df) = set required_columns - set (columns df)"
    by (auto simp: missing_cols_def)
  have e: "missing_cols df = [] \<longleftrightarrow> set required_columns \<subseteq> set (columns df)"
    unfolding missing_cols_def filter_empty_conv by auto
  show ?thesis
    using m e by (simp add: validate_def run_def stop_def)
qed

theorem schema_validation_witness:
  "validate scenario = Inr scenario \<and>
   validate no_scores = Inl (MissingColumns [''MPO_score'', ''docking score'']) \<and>
   run argsort_stable (contains ''a'') no_scores =
     \<lparr>written = [], printed = [],
      raised = Some (MissingColumns [''MPO_score'', ''docking score''])\<rparr>"
proof -
  have a: "set required_columns \<subseteq> set (columns scenario)"
    by (simp add: scenario_def)
  have b: "\<not> set required_columns \<subseteq> set (columns no_scores)"
    by (simp add: no_scores_def required_columns_def)
  have c: "missing_cols no_scores = [''MPO_score'', ''docking score'']"
    by (simp add: missing_cols_def no_scores_def required_columns_def)
  show ?thesis
    using a b c schema_validation [of scenario argsort_stable "contains ''a''"]
      schema_validation [of no_scores argsort_stable "contains ''a''"]
    by simp
qed

section \<open>Groups that are not pairs\<close>

text \<open>
  C3. On the scenario of the specification (a pair \<open>A\<close> and a single row \<open>B\<close>), which passes
  validation, the run ends with the exception of the frame constructor at line 78: no file is
  written and nothing is printed, whatever the sort routine and the benchmark query.
\<close>

theorem scenario_run:
  "run argsort search scenario =
     \<lparr>written = [], printed = [], raised = Some ConstructorError\<rparr>"
  by (simp add: run_def scenario_def eval_defs)

text \<open>
  C5. On the same table the loop of lines 62 to 76 appends the single row \<open>B\<close> as the frame of
  its group, unchanged, and the constructor of line 78 raises on the list that holds it: no
  aggregated table exists, so no row of the group is emitted.
\<close>

theorem scenario_processed_df:
  "map_sum id (map (\<lambda>(name, members). (name, map fst members))) (groupby ''Title'' scenario) =
     Inr [(Str ''A'', [0, 1]), (Str ''B'', [2])] \<and>
   process_group [input_row 2 ''B'' (Num 0.5) (Num 0.5) (Num (- 5))] =
     Inr [Frame [input_row 2 ''B'' (Num 0.5) (Num 0.5) (Num (- 5))]] \<and>
   processed_df scenario = Inl ConstructorError"
  by (simp add: scenario_def eval_defs)

section \<open>Pairs\<close>

lemma map_of_set_item: "map_of (set_item s k v) = (map_of s)(k \<mapsto> v)"
  by (induction s) (auto simp: fun_eq_iff)


lemma cell_at_set_item: "cell_at (set_item s k v) k' = (if k' = k then v else cell_at s k')"
  by (simp add: cell_at_def map_of_set_item)






section \<open>Benchmark thresholds and the missing benchmark\<close>

lemma first_present_split:
  assumes "k \<in> set (columns sel)" and "rows sel = pre @ r # post"
    and "\<forall>x\<in>set pre. cell_at (snd x) k = NaN" and "cell_at (snd r) k \<noteq> NaN"
  shows "first_present sel k = Inr (cell_at (snd r) k)"
proof -
  have "filter (\<lambda>c. c \<noteq> NaN) (map (\<lambda>x. cell_at (snd x) k) pre) = []"
    using assms(3) by (simp add: filter_empty_conv)
  then show ?thesis
    using assms(1,2,4) by (simp add: first_present_def column_def)
qed



lemma columns_getitem_mask: "columns (getitem_mask p flags) = columns p"
  by (simp add: getitem_mask_def)

lemma rows_getitem_mask_subset: "set (rows (getitem_mask p flags)) \<subseteq> set (rows p)"
  by (auto simp: getitem_mask_def dest: set_zip_rightD)

lemma benchmark_row_columns: "benchmark_row search p = Inr sel \<Longrightarrow> columns sel = columns p"
  by (auto simp: benchmark_row_def columns_getitem_mask split: sum.splits)

lemma benchmark_row_subset: "benchmark_row search p = Inr sel \<Longrightarrow> set (rows sel) \<subseteq> set (rows p)"
  using rows_getitem_mask_subset by (auto simp: benchmark_row_def split: sum.splits)

text \<open>
  C9. When the selection is not empty, the MPO threshold is the \<open>Avg_MPO\<close> of the first
  selected row, in table order, whose \<open>Avg_MPO\<close> is present (every selected row before it has
  it missing), and the docking threshold is the \<open>Avg_norm_docking\<close> of the first selected row
  whose \<open>Avg_norm_docking\<close> is present. The two rows \<open>r1\<close> and \<open>r2\<close> need not be the same:
  in the witness the MPO threshold comes from the row labelled 2 and the docking threshold from
  the row labelled 0.
\<close>

theorem thresholds_first_present:
  assumes "benchmark_row search p = Inr sel"
    and "''Avg_MPO'' \<in> set (columns p)" and "''Avg_norm_docking'' \<in> set (columns p)"
    and "rows sel = pre1 @ r1 # post1"
    and "\<forall>x\<in>set pre1. cell_at (snd x) ''Avg_MPO'' = NaN"
    and "cell_at (snd r1) ''Avg_MPO'' \<noteq> NaN"
    and "rows sel = pre2 @ r2 # post2"
    and "\<forall>x\<in>set pre2. cell_at (snd x) ''Avg_norm_docking'' = NaN"
    and "cell_at (snd r2) ''Avg_norm_docking'' \<noteq> NaN"
  shows "thresholds sel =
           Inr (cell_at (snd r1) ''Avg_MPO'', cell_at (snd r2) ''Avg_norm_docking'') \<and>
         map_sum id (map_option benchmark) (benchmark_filter search p) =
           Inr (Some (cell_at (snd r1) ''Avg_MPO'', cell_at (snd r2) ''Avg_norm_docking''))"
proof -
  have c: "columns sel = columns p"
    using assms(1) by (rule benchmark_row_columns)
  have t: "thresholds sel =
      Inr (cell_at (snd r1) ''Avg_MPO'', cell_at (snd r2) ''Avg_norm_docking'')"
    using first_present_split [of "''Avg_MPO''" sel pre1 r1 post1]
      first_present_split [of "''Avg_norm_docking''" sel pre2 r2 post2] assms c
    by (simp add: thresholds_def)
  have "rows sel \<noteq> []"
    using assms(4) by simp
  then show ?thesis
    using t assms(1) by (simp add: benchmark_filter_def)
qed


lemma processed_two_pairs: "processed_df two_pairs = Inr two_pairs_processed"
  by (simp add: two_pairs_def two_pairs_processed_def output_row_def derived_def eval_defs)

lemma processed_missing_score: "processed_df missing_score = Inr missing_score_processed"
  by (simp add: missing_score_def missing_score_processed_def output_row_def derived_def eval_defs)

lemmas match_defs = benchmark_row_def title_mask_def getitem_mask_def column_def lower_def
  lower_char_def cell_at_def output_row_def input_row_def required_columns_def derived_def

lemma select_x: "benchmark_row (contains ''x'') missing_score_processed = Inr missing_score_processed"
  by (simp add: missing_score_processed_def match_defs)

theorem thresholds_first_present_witness:
  "processed_df missing_score = Inr missing_score_processed \<and>
   benchmark_row (contains ''x'') missing_score_processed = Inr missing_score_processed \<and>
   column missing_score_processed ''Avg_MPO'' = [NaN, NaN, Num 0.8, Num 0.8] \<and>
   column missing_score_processed ''Avg_norm_docking'' = [Num 0.5, Num 0.5, Num 0.9, Num 0.9] \<and>
   thresholds missing_score_processed = Inr (Num 0.8, Num 0.5)"
proof -
  let ?r0 = "output_row (input_row 0 ''Xa'' NaN (Num 0.6) (Num (- 7))) NaN NaN (Num 0.5) (Num 0.2)"
  let ?r1 = "output_row (input_row 1 ''Xa'' (Num 0.4) (Num 0.4) (Num (- 6))) NaN NaN (Num 0.5) (Num 0.2)"
  let ?r2 = "output_row (input_row 2 ''Xb'' (Num 0.9) (Num 0.9) (Num (- 5))) (Num 0.8) (Num 0.2) (Num 0.9) (Num 0)"
  let ?r3 = "output_row (input_row 3 ''Xb'' (Num 0.7) (Num 0.9) (Num (- 4))) (Num 0.8) (Num 0.2) (Num 0.9) (Num 0)"
  have cols: "''Avg_MPO'' \<in> set (columns missing_score_processed)"
    "''Avg_norm_docking'' \<in> set (columns missing_score_processed)"
    by (simp_all add: missing_score_processed_def derived_def)
  have s1: "rows missing_score_processed = [?r0, ?r1] @ ?r2 # [?r3]"
    and s2: "rows missing_score_processed = [] @ ?r0 # [?r1, ?r2, ?r3]"
    by (simp_all add: missing_score_processed_def)
  have m1: "\<forall>x\<in>set [?r0, ?r1]. cell_at (snd x) ''Avg_MPO'' = NaN"
    and m2: "\<forall>x\<in>set []. cell_at (snd x) ''Avg_norm_docking'' = NaN"
    by (simp_all add: cell_at_def output_row_def input_row_def)
  have p1: "cell_at (snd ?r2) ''Avg_MPO'' = Num 0.8"
    and p2: "cell_at (snd ?r0) ''Avg_norm_docking'' = Num 0.5"
    by (simp_all add: cell_at_def output_row_def input_row_def)
  have c: "column missing_score_processed ''Avg_MPO'' = [NaN, NaN, Num 0.8, Num 0.8]"
    "column missing_score_processed ''Avg_norm_docking'' = [Num 0.5, Num 0.5, Num 0.9, Num 0.9]"
    by (simp_all add: missing_score_processed_def column_def cell_at_def output_row_def input_row_def)
  show ?thesis
    using thresholds_first_present [OF select_x cols s1 m1 _ s2 m2] p1 p2 c
      processed_missing_score select_x
    by simp
qed


lemma getitem_cols_Inr:
  assumes "getitem_cols p cols = Inr q"
  shows "columns q = cols" and "set cols \<subseteq> set (columns p)"
    and "rows q = map (\<lambda>r. (fst r, align cols (snd r))) (rows p)"
proof -
  have e: "filter (\<lambda>c. c \<notin> set (columns p)) cols = []"
    using assms by (simp add: getitem_cols_def split: list.splits)
  show "set cols \<subseteq> set (columns p)"
    using e by (auto simp: filter_empty_conv)
  show "columns q = cols" "rows q = map (\<lambda>r. (fst r, align cols (snd r))) (rows p)"
    using assms e by (auto simp: getitem_cols_def)
qed

lemma sort_values_Inr:
  assumes "sort_values argsort by q = Inr m"
  shows "by \<in> set (columns q)" and "columns m = columns q"
  using assms by (auto simp: sort_values_def split: if_splits)

lemma arrange_Inr:
  assumes "arrange strip ins cols = Inr out"
  shows "set ins \<subseteq> set out"
  using assms by (auto simp: arrange_def Let_def split: option.splits)







lemmas rank_defs = df_sorted_mpo_def df_sorted_dock_def arranged_def arrange_def strip_cols_def
  getitem_cols_def sort_values_def mpo_strip_def mpo_insert_def dock_strip_def dock_insert_def
  column_def cell_at_def align_def output_row_def input_row_def required_columns_def derived_def








section \<open>The rows above the benchmark\<close>

lemma gt_Num: "gt a b \<Longrightarrow> \<exists>x y. a = Num x \<and> b = Num y \<and> y < x"
  by (cases a; cases b) simp_all

lemma gt_irrefl: "\<not> gt a a"
  by (cases a) simp_all

lemma benchmark_filter_Some:
  assumes "benchmark_filter search p = Inr (Some f)"
  shows "benchmark_row search p = Inr (selection f)" and "rows (selection f) \<noteq> []"
    and "thresholds (selection f) = Inr (benchmark f)"
    and "better f = better_than_benchmark p (benchmark f)"
  using assms by (auto simp: benchmark_filter_def split: sum.splits if_splits)

lemma rows_concat_ignore_index:
  "map snd (rows (concat_ignore_index a b)) =
     map (\<lambda>r. align (first_seen (columns a @ columns b)) (snd r)) (rows a @ rows b)"
  by (simp add: concat_ignore_index_def Let_def)

lemma cell_at_align: "c \<in> set cols \<Longrightarrow> cell_at (align cols s) c = cell_at s c"
proof -
  assume "c \<in> set cols"
  then have "map_of (map (\<lambda>c. (c, cell_at s c)) cols) c = Some (cell_at s c)"
    by (induction cols) auto
  then show ?thesis
    by (simp add: cell_at_def align_def)
qed

text \<open>
  C1, as amended. Every row of the filtered set before the append has \<open>Avg_MPO\<close> strictly
  above the MPO threshold and \<open>Avg_norm_docking\<close> strictly above the docking threshold. A row
  of the benchmark selection is in that set exactly when both of its aggregates are strictly
  above the thresholds; when every selected row carries one of the two threshold values (as the
  rows of a single matching pair do), no selected row is in it. The written table is the
  filtered set followed by the whole selection.
\<close>

theorem better_than_benchmark_rows:
  assumes "benchmark_filter search p = Inr (Some f)"
  shows "(\<forall>r\<in>set (rows (better f)). \<exists>x y tm td.
            benchmark f = (Num tm, Num td) \<and>
            cell_at (snd r) ''Avg_MPO'' = Num x \<and> tm < x \<and>
            cell_at (snd r) ''Avg_norm_docking'' = Num y \<and> td < y) \<and>
         (\<forall>r\<in>set (rows (selection f)).
            r \<in> set (rows (better f)) \<longleftrightarrow>
              gt (cell_at (snd r) ''Avg_MPO'') (fst (benchmark f)) \<and>
              gt (cell_at (snd r) ''Avg_norm_docking'') (snd (benchmark f))) \<and>
         ((\<forall>r\<in>set (rows (selection f)).
             cell_at (snd r) ''Avg_MPO'' = fst (benchmark f) \<or>
             cell_at (snd r) ''Avg_norm_docking'' = snd (benchmark f)) \<longrightarrow>
          set (rows (selection f)) \<inter> set (rows (better f)) = {}) \<and>
         (\<forall>out. final_output (better f) (selection f) = Inr out \<longrightarrow>
            map snd (rows out) =
              map (\<lambda>r. align (columns out) (snd r)) (rows (better f) @ rows (selection f)))"
proof -
  note b = benchmark_filter_Some [OF assms]
  have rb: "rows (better f) =
      filter (\<lambda>r. gt (cell_at (snd r) ''Avg_MPO'') (fst (benchmark f)) \<and>
                   gt (cell_at (snd r) ''Avg_norm_docking'') (snd (benchmark f))) (rows p)"
    by (simp add: b(4) better_than_benchmark_def)
  have sub: "set (rows (selection f)) \<subseteq> set (rows p)"
    using benchmark_row_subset [OF b(1)] .
  have 1: "\<forall>r\<in>set (rows (better f)). \<exists>x y tm td.
            benchmark f = (Num tm, Num td) \<and>
            cell_at (snd r) ''Avg_MPO'' = Num x \<and> tm < x \<and>
            cell_at (snd r) ''Avg_norm_docking'' = Num y \<and> td < y"
  proof
    fix r assume "r \<in> set (rows (better f))"
    then have g: "gt (cell_at (snd r) ''Avg_MPO'') (fst (benchmark f))"
      "gt (cell_at (snd r) ''Avg_norm_docking'') (snd (benchmark f))"
      by (simp_all add: rb)
    obtain x tm where x: "cell_at (snd r) ''Avg_MPO'' = Num x" "fst (benchmark f) = Num tm" "tm < x"
      using gt_Num [OF g(1)] by blast
    obtain y td where y: "cell_at (snd r) ''Avg_norm_docking'' = Num y"
      "snd (benchmark f) = Num td" "td < y"
      using gt_Num [OF g(2)] by blast
    have "benchmark f = (Num tm, Num td)"
      using x(2) y(2) by (simp add: prod_eq_iff)
    then show "\<exists>x y tm td. benchmark f = (Num tm, Num td) \<and>
            cell_at (snd r) ''Avg_MPO'' = Num x \<and> tm < x \<and>
            cell_at (snd r) ''Avg_norm_docking'' = Num y \<and> td < y"
      using x y by blast
  qed
  have 2: "\<forall>r\<in>set (rows (selection f)).
            r \<in> set (rows (better f)) \<longleftrightarrow>
              gt (cell_at (snd r) ''Avg_MPO'') (fst (benchmark f)) \<and>
              gt (cell_at (snd r) ''Avg_norm_docking'') (snd (benchmark f))"
    using sub by (auto simp: rb)
  have 3: "(\<forall>r\<in>set (rows (selection f)).
             cell_at (snd r) ''Avg_MPO'' = fst (benchmark f) \<or>
             cell_at (snd r) ''Avg_norm_docking'' = snd (benchmark f)) \<longrightarrow>
          set (rows (selection f)) \<inter> set (rows (better f)) = {}"
    using 2 gt_irrefl by fastforce
  have 4: "\<forall>out. final_output (better f) (selection f) = Inr out \<longrightarrow>
            map snd (rows out) =
              map (\<lambda>r. align (columns out) (snd r)) (rows (better f) @ rows (selection f))"
  proof (intro allI impI)
    fix out assume o: "final_output (better f) (selection f) = Inr out"
    let ?both = "concat_ignore_index (better f) (selection f)"
    let ?u = "first_seen (columns (better f) @ columns (selection f))"
    obtain cols where g: "getitem_cols ?both cols = Inr out"
      using o by (auto simp: final_output_def Let_def)
    have cu: "columns ?both = ?u"
      by (simp add: concat_ignore_index_def Let_def)
    have co: "columns out = cols" and sc: "set cols \<subseteq> set ?u"
      and ro: "rows out = map (\<lambda>r. (fst r, align cols (snd r))) (rows ?both)"
      using getitem_cols_Inr [OF g] cu by simp_all
    have al: "align cols (align ?u s) = align cols s" for s
      using sc by (auto simp: align_def [of cols] cell_at_align)
    have "map snd (rows out) = map (align cols) (map snd (rows ?both))"
      by (simp add: ro comp_def)
    also have "\<dots> = map (\<lambda>r. align cols (snd r)) (rows (better f) @ rows (selection f))"
      unfolding rows_concat_ignore_index by (simp add: al comp_def del: map_append)
    finally show "map snd (rows out) =
        map (\<lambda>r. align (columns out) (snd r)) (rows (better f) @ rows (selection f))"
      by (simp add: co)
  qed
  show ?thesis
    using 1 2 3 4 by blast
qed


lemmas filter_defs = benchmark_filter_def thresholds_def first_present_def
  better_than_benchmark_def labels_def

text \<open>
  C1, as stated, fails: with the query \<open>c\<close> on the table \<open>two_pairs\<close> both pairs are
  selected, the thresholds come from the first pair, and the rows labelled 2 and 3 of the
  selection are in the filtered set before the append.
\<close>

theorem selection_rows_among_better:
  "processed_df two_pairs = Inr two_pairs_processed \<and>
   benchmark_filter (contains ''c'') two_pairs_processed =
     Inr (Some \<lparr>benchmark = (Num 0.5, Num 0.5),
                selection = two_pairs_processed,
                better = two_pairs_processed\<lparr>rows := drop 2 (rows two_pairs_processed)\<rparr>\<rparr>) \<and>
   labels two_pairs_processed = [0, 1, 2, 3] \<and>
   labels (two_pairs_processed\<lparr>rows := drop 2 (rows two_pairs_processed)\<rparr>) = [2, 3]"
proof -
  have "benchmark_filter (contains ''c'') two_pairs_processed =
     Inr (Some \<lparr>benchmark = (Num 0.5, Num 0.5),
                selection = two_pairs_processed,
                better = two_pairs_processed\<lparr>rows := drop 2 (rows two_pairs_processed)\<rparr>\<rparr>)"
    by (simp add: two_pairs_processed_def filter_defs match_defs)
  moreover have "labels two_pairs_processed = [0, 1, 2, 3]"
    "labels (two_pairs_processed\<lparr>rows := drop 2 (rows two_pairs_processed)\<rparr>) = [2, 3]"
    by (simp_all add: two_pairs_processed_def labels_def output_row_def input_row_def)
  ultimately show ?thesis
    using processed_two_pairs by simp
qed

theorem better_than_benchmark_rows_witness:
  "benchmark_filter (contains ''ca'') two_pairs_processed =
     Inr (Some \<lparr>benchmark = (Num 0.5, Num 0.5),
                selection = two_pairs_processed\<lparr>rows := take 2 (rows two_pairs_processed)\<rparr>,
                better = two_pairs_processed\<lparr>rows := drop 2 (rows two_pairs_processed)\<rparr>\<rparr>) \<and>
   set (take 2 (rows two_pairs_processed)) \<inter> set (drop 2 (rows two_pairs_processed)) = {} \<and>
   column (two_pairs_processed\<lparr>rows := drop 2 (rows two_pairs_processed)\<rparr>) ''Avg_MPO'' =
     [Num 0.9, Num 0.9]"
proof -
  let ?f = "\<lparr>benchmark = (Num 0.5, Num 0.5),
             selection = two_pairs_processed\<lparr>rows := take 2 (rows two_pairs_processed)\<rparr>,
             better = two_pairs_processed\<lparr>rows := drop 2 (rows two_pairs_processed)\<rparr>\<rparr>"
  have e: "benchmark_filter (contains ''ca'') two_pairs_processed = Inr (Some ?f)"
    by (simp add: two_pairs_processed_def filter_defs match_defs)
  have h: "\<forall>r\<in>set (rows (selection ?f)).
             cell_at (snd r) ''Avg_MPO'' = fst (benchmark ?f) \<or>
             cell_at (snd r) ''Avg_norm_docking'' = snd (benchmark ?f)"
    by (simp add: two_pairs_processed_def cell_at_def output_row_def input_row_def)
  have c: "column (two_pairs_processed\<lparr>rows := drop 2 (rows two_pairs_processed)\<rparr>) ''Avg_MPO'' =
     [Num 0.9, Num 0.9]"
    by (simp add: two_pairs_processed_def column_def cell_at_def output_row_def input_row_def)
  show ?thesis
    using better_than_benchmark_rows [OF e] h e c by simp
qed

section \<open>Column arrangement\<close>

lemma mset_strip_cols: "mset (strip_cols names cols) = mset cols - mset names"
  unfolding strip_cols_def
proof (induction names arbitrary: cols)
  case Nil
  show ?case by simp
next
  case (Cons n names)
  have "mset (fold remove1 (n # names) cols) = mset (remove1 n cols) - mset names"
    using Cons.IH [of "remove1 n cols"] by simp
  also have "\<dots> = mset cols - mset (n # names)"
    by (simp add: diff_diff_add_mset)
  finally show ?case .
qed

lemma index_of_Some:
  "index_of x xs = Some i \<Longrightarrow>
     xs = take i xs @ x # drop (Suc i) xs \<and> x \<notin> set (take i xs)"
proof (induction xs arbitrary: i)
  case Nil
  then show ?case by simp
next
  case (Cons y ys)
  show ?case
  proof (cases "y = x")
    case True
    then show ?thesis using Cons.prems by simp
  next
    case False
    then obtain j where j: "index_of x ys = Some j" "i = Suc j"
      using Cons.prems by auto
    show ?thesis
      using Cons.IH [OF j(1)] False j(2) by auto
  qed
qed

lemma arrange_shape:
  assumes "arrange strip ins cols = Inr out"
  shows "\<exists>pre post. strip_cols strip cols = pre @ ''Title'' # post \<and> ''Title'' \<notin> set pre \<and>
           out = pre @ ''Title'' # ins @ post"
proof -
  let ?cs = "strip_cols strip cols"
  obtain i where i: "index_of ''Title'' ?cs = Some i"
    and o: "out = take (i + 1) ?cs @ ins @ drop (i + 1) ?cs"
    using assms by (auto simp: arrange_def Let_def split: option.splits)
  note s = index_of_Some [OF i]
  have t: "take (i + 1) ?cs = take i ?cs @ [''Title'']"
    by (subst (1) conjunct1 [OF s]) (simp add: min_def take_Suc_conv_app_nth)
  show ?thesis
    using s o t by (intro exI [of _ "take i ?cs"] exI [of _ "drop (Suc i) ?cs"]) simp
qed

lemma distinct_first_seen: "distinct (first_seen xs)"
  by (simp add: first_seen_def)

lemma set_first_seen: "set (first_seen xs) = set xs"
  by (simp add: first_seen_def)

lemma processed_df_distinct: "processed_df df = Inr p \<Longrightarrow> distinct (columns p)"
  by (auto simp: processed_df_def DataFrame_def union_index_def distinct_first_seen Let_def
      split: sum.splits option.splits)

lemma templates:
  "mset mpo_insert = mset mpo_strip" "mset dock_insert = mset dock_strip"
  "distinct mpo_strip" "distinct dock_strip"
  by (simp_all add: mpo_insert_def mpo_strip_def dock_insert_def dock_strip_def)


lemma distinct_subset_mset:
  assumes "distinct xs" and "set xs \<subseteq> set ys"
  shows "mset xs \<subseteq># mset ys"
proof (rule mset_subset_eqI)
  fix x
  show "count (mset xs) x \<le> count (mset ys) x"
  proof (cases "x \<in> set xs")
    case True
    then have "count (mset xs) x = 1"
      using assms(1) by (simp add: distinct_count_atmost_1)
    moreover have "x \<in># mset ys"
      using True assms(2) by auto
    then have "1 \<le> count (mset ys) x"
      by (simp add: Suc_le_eq)
    ultimately show ?thesis by simp
  next
    case False
    then have z: "count (mset xs) x = 0"
      by simp
    show ?thesis
      unfolding z by simp
  qed
qed

lemma column_getitem_cols:
  assumes "getitem_cols p cols = Inr q" and "c \<in> set cols"
  shows "column q c = column p c"
  using getitem_cols_Inr(3) [OF assms(1)] assms(2)
  by (simp add: column_def comp_def cell_at_align)

text \<open>
  C7. For an aggregated table and either template, the arranged table has the columns of the
  aggregated table as a multiset (none dropped, none duplicated): the stripped columns are
  taken out and the inserted columns stand right after the first \<open>Title\<close>, all others in
  their order. The rows keep their labels and order, and every column holds the cells it held.
\<close>

theorem column_arrangement:
  assumes "processed_df df = Inr p"
    and "(strip, ins) = (mpo_strip, mpo_insert) \<or> (strip, ins) = (dock_strip, dock_insert)"
    and "arranged strip ins p = Inr q"
  shows "mset (columns q) = mset (columns p) \<and>
         (\<exists>pre post. strip_cols strip (columns p) = pre @ ''Title'' # post \<and>
            ''Title'' \<notin> set pre \<and> columns q = pre @ ''Title'' # ins @ post) \<and>
         labels q = labels p \<and>
         (\<forall>c\<in>set (columns p). column q c = column p c)"
proof -
  obtain cols where a: "arrange strip ins (columns p) = Inr cols"
    and g: "getitem_cols p cols = Inr q"
    using assms(3) by (auto simp: arranged_def split: sum.splits)
  note q = getitem_cols_Inr [OF g]
  have t: "mset ins = mset strip" "distinct strip"
    using assms(2) templates by auto
  obtain pre post where sh: "strip_cols strip (columns p) = pre @ ''Title'' # post"
    "''Title'' \<notin> set pre" "cols = pre @ ''Title'' # ins @ post"
    using arrange_shape [OF a] by blast
  have "set strip \<subseteq> set (columns p)"
    using arrange_Inr [OF a] q(2) mset_eq_setD [OF t(1)] by blast
  then have sub: "mset strip \<subseteq># mset (columns p)"
    using t(2) by (intro distinct_subset_mset)
  have "mset cols = mset (strip_cols strip (columns p)) + mset ins"
    by (simp add: sh(3) sh(1))
  also have "\<dots> = mset (columns p) - mset strip + mset strip"
    by (simp add: mset_strip_cols t(1))
  also have "\<dots> = mset (columns p)"
    using sub by simp
  finally have m: "mset cols = mset (columns p)" .
  have l: "labels q = labels p"
    by (simp add: labels_def q(3) comp_def)
  have d: "\<forall>c\<in>set (columns p). column q c = column p c"
    using column_getitem_cols [OF g] mset_eq_setD [OF m] by blast
  show ?thesis
    using m sh l d by (auto simp: q(1))
qed

theorem column_arrangement_witness:
  "(\<exists>q. arranged mpo_strip mpo_insert two_pairs_processed = Inr q \<and>
        columns q = [''Title'', ''Avg_MPO'', ''Delta_MPO'', ''MPO_score'', ''Avg_norm_docking'',
                     ''Delta_norm_docking'', ''norm_docking_score'', ''docking score''] \<and>
        mset (columns q) = mset (columns two_pairs_processed) \<and>
        labels q = [0, 1, 2, 3] \<and>
        column q ''docking score'' = [Num (- 7), Num (- 6), Num (- 5), Num (- 4)]) \<and>
   (\<exists>q. arranged dock_strip dock_insert two_pairs_processed = Inr q \<and>
        columns q = [''Title'', ''Avg_norm_docking'', ''Delta_norm_docking'',
                     ''norm_docking_score'', ''docking score'', ''Avg_MPO'', ''Delta_MPO'',
                     ''MPO_score''] \<and>
        mset (columns q) = mset (columns two_pairs_processed) \<and>
        labels q = [0, 1, 2, 3] \<and>
        column q ''docking score'' = [Num (- 7), Num (- 6), Num (- 5), Num (- 4)])"
proof -
  have l: "labels two_pairs_processed = [0, 1, 2, 3]"
    by (simp add: two_pairs_processed_def labels_def output_row_def input_row_def)
  have c: "column two_pairs_processed ''docking score'' = [Num (- 7), Num (- 6), Num (- 5), Num (- 4)]"
    by (simp add: two_pairs_processed_def column_def cell_at_def output_row_def input_row_def)
  have k: "''docking score'' \<in> set (columns two_pairs_processed)"
    by (simp add: two_pairs_processed_def required_columns_def)
  obtain qm where qm: "arranged mpo_strip mpo_insert two_pairs_processed = Inr qm"
    "columns qm = [''Title'', ''Avg_MPO'', ''Delta_MPO'', ''MPO_score'', ''Avg_norm_docking'',
                   ''Delta_norm_docking'', ''norm_docking_score'', ''docking score'']"
    by (simp add: two_pairs_processed_def rank_defs)
  obtain qd where qd: "arranged dock_strip dock_insert two_pairs_processed = Inr qd"
    "columns qd = [''Title'', ''Avg_norm_docking'', ''Delta_norm_docking'',
                   ''norm_docking_score'', ''docking score'', ''Avg_MPO'', ''Delta_MPO'',
                   ''MPO_score'']"
    by (simp add: two_pairs_processed_def rank_defs)
  have "mset (columns qm) = mset (columns two_pairs_processed) \<and> labels qm = [0, 1, 2, 3] \<and>
        column qm ''docking score'' = [Num (- 7), Num (- 6), Num (- 5), Num (- 4)]"
    using column_arrangement [OF processed_two_pairs _ qm(1)] l c k by simp
  moreover have "mset (columns qd) = mset (columns two_pairs_processed) \<and>
        labels qd = [0, 1, 2, 3] \<and>
        column qd ''docking score'' = [Num (- 7), Num (- 6), Num (- 5), Num (- 4)]"
    using column_arrangement [OF processed_two_pairs _ qd(1)] l c k by simp
  ultimately show ?thesis
    using qm qd by blast
qed

section \<open>Ranking\<close>

lemma map_nth_filter: "map ((!) xs) (filter (\<lambda>i. P (xs ! i)) [0..<length xs]) = filter P xs"
proof (induction xs rule: rev_induct)
  case Nil
  show ?case by simp
next
  case (snoc x xs)
  let ?F = "filter (\<lambda>i. P (xs ! i)) [0..<length xs]"
  have a: "filter (\<lambda>i. P ((xs @ [x]) ! i)) [0..<length xs] = ?F"
    by (rule filter_cong) (simp_all add: nth_append)
  have b: "map ((!) (xs @ [x])) ?F = map ((!) xs) ?F"
    by (rule map_cong) (simp_all add: nth_append)
  have "filter (\<lambda>i. P ((xs @ [x]) ! i)) [0..<length (xs @ [x])] =
      ?F @ (if P x then [length xs] else [])"
    using a by simp
  then have "map ((!) (xs @ [x])) (filter (\<lambda>i. P ((xs @ [x]) ! i)) [0..<length (xs @ [x])]) =
      map ((!) (xs @ [x])) ?F @ (if P x then [x] else [])"
    by simp
  then show ?case
    unfolding b snoc.IH by simp
qed

lemma mset_map_nth_perm:
  assumes "mset p = mset [0..<length xs]"
  shows "mset (map ((!) xs) p) = mset xs"
proof -
  have "mset (map ((!) xs) p) = image_mset ((!) xs) (mset p)"
    by simp
  also have "\<dots> = mset (map ((!) xs) [0..<length xs])"
    unfolding assms by simp
  also have "\<dots> = mset xs"
    by (simp add: map_nth)
  finally show ?thesis .
qed

lemma argsort_stable_ok: "argsort_ok ks (argsort_stable ks)"
  by (simp add: argsort_ok_def argsort_stable_def)

lemma argsort_mirror_ok: "argsort_ok ks (argsort_mirror ks)"
proof -
  let ?s = "sort_key (\<lambda>j. - (ks ! j)) [0..<length ks]"
  have "sorted (map (\<lambda>j. - (ks ! j)) ?s)"
    by (rule sorted_sort_key)
  then have "sorted (rev (map (\<lambda>j. ks ! j) ?s))"
    by (simp add: sorted_wrt_rev sorted_wrt_map)
  then show ?thesis
    by (simp add: argsort_ok_def argsort_mirror_def rev_map)
qed


lemma nargsort_rows:
  fixes rs :: "'a list" and key :: "'a \<Rightarrow> cell"
  assumes ok: "\<forall>ks. argsort_ok ks (argsort ks)"
  shows "\<exists>present. map ((!) rs) (nargsort argsort (map key rs)) =
             present @ filter (\<lambda>r. key r = NaN) rs \<and>
           mset present = mset (filter (\<lambda>r. key r \<noteq> NaN) rs) \<and>
           sorted (rev (map (\<lambda>r. num_of (key r)) present))"
proof -
  let ?items = "map key rs"
  let ?n = "length rs"
  let ?A = "filter (\<lambda>i. ?items ! i \<noteq> NaN) [0..<length ?items]"
  let ?N = "filter (\<lambda>i. ?items ! i = NaN) [0..<length ?items]"
  let ?R = "rev ?A"
  let ?ks = "map (\<lambda>i. num_of (?items ! i)) ?R"
  let ?p = "argsort ?ks"
  let ?present = "map ((!) rs) (rev (map ((!) ?R) ?p))"
  have A: "?A = filter (\<lambda>i. key (rs ! i) \<noteq> NaN) [0..<?n]"
    by (rule filter_cong) simp_all
  have N: "?N = filter (\<lambda>i. key (rs ! i) = NaN) [0..<?n]"
    by (rule filter_cong) simp_all
  have mN: "map ((!) rs) ?N = filter (\<lambda>r. key r = NaN) rs"
    unfolding N by (rule map_nth_filter)
  have mA: "map ((!) rs) ?A = filter (\<lambda>r. key r \<noteq> NaN) rs"
    unfolding A by (rule map_nth_filter)
  have o: "map ((!) rs) (nargsort argsort (map key rs)) =
      ?present @ filter (\<lambda>r. key r = NaN) rs"
    unfolding nargsort_def Let_def map_append mN ..
  have p: "mset ?p = mset [0..<length ?R]" and s: "sorted (map (\<lambda>j. ?ks ! j) ?p)"
    using ok [rule_format, of ?ks] by (simp_all add: argsort_ok_def)
  have pR: "mset (map ((!) ?R) ?p) = mset ?R"
    using p by (rule mset_map_nth_perm)
  have "mset ?present = mset (map ((!) rs) (map ((!) ?R) ?p))"
    unfolding rev_map [symmetric] mset_rev ..
  also have "\<dots> = image_mset ((!) rs) (mset (map ((!) ?R) ?p))"
    by (rule mset_map)
  also have "\<dots> = mset (map ((!) rs) ?A)"
    unfolding pR by simp
  finally have m: "mset ?present = mset (filter (\<lambda>r. key r \<noteq> NaN) rs)"
    unfolding mA .
  have lt: "j < length ?R" if "j \<in> set ?p" for j
  proof -
    have "j \<in># mset [0..<length ?R]"
      using that p by (metis set_mset_mset)
    then show ?thesis by simp
  qed
  have Rlt: "?R ! j < ?n" if "j < length ?R" for j
  proof -
    have "?R ! j \<in> set ?R"
      using that by (rule nth_mem)
    then show ?thesis by simp
  qed
  have "map (\<lambda>r. num_of (key r)) ?present = rev (map (\<lambda>j. num_of (key (rs ! (?R ! j)))) ?p)"
    by (simp add: rev_map comp_def)
  also have "map (\<lambda>j. num_of (key (rs ! (?R ! j)))) ?p = map (\<lambda>j. ?ks ! j) ?p"
  proof (rule map_cong [OF refl])
    fix j assume "j \<in> set ?p"
    then have j: "j < length ?R"
      by (rule lt)
    then show "num_of (key (rs ! (?R ! j))) = ?ks ! j"
      using Rlt [OF j] by simp
  qed
  finally have "rev (map (\<lambda>r. num_of (key r)) ?present) = map (\<lambda>j. ?ks ! j) ?p"
    by simp
  then have "sorted (rev (map (\<lambda>r. num_of (key r)) ?present))"
    using s by simp
  then show ?thesis
    using o m by blast
qed


text \<open>
  C2, as amended. With any \<open>argsort\<close> that keeps numpy's promise, the ranked table has the
  columns of its input and its rows are a rearrangement of the input's rows (none lost, none
  duplicated): first the rows whose key is present, their keys in non-increasing order, then
  the rows whose key is missing, in the order they had in the input. The input table is a
  value and is not changed. Nothing is said of the order of rows with equal present keys.
\<close>

theorem sort_values_ranking:
  assumes "\<forall>ks. argsort_ok ks (argsort ks)" and "sort_values argsort by df = Inr out"
  shows "columns out = columns df \<and> mset (rows out) = mset (rows df) \<and>
         (\<exists>present.
            rows out = present @ filter (\<lambda>r. cell_at (snd r) by = NaN) (rows df) \<and>
            (\<forall>r\<in>set present. \<exists>x. cell_at (snd r) by = Num x) \<and>
            sorted (rev (map (\<lambda>r. num_of (cell_at (snd r) by)) present)))"
proof -
  let ?key = "\<lambda>r :: nat \<times> series. cell_at (snd r) by"
  have ns: "filter is_Str (column df by) = []"
    and ro: "rows out = map ((!) (rows df)) (nargsort argsort (map ?key (rows df)))"
    and co: "columns out = columns df"
    using assms(2) by (auto simp: sort_values_def column_def split: if_splits)
  obtain present where pr: "rows out = present @ filter (\<lambda>r. ?key r = NaN) (rows df)"
    and m: "mset present = mset (filter (\<lambda>r. ?key r \<noteq> NaN) (rows df))"
    and s: "sorted (rev (map (\<lambda>r. num_of (?key r)) present))"
    using nargsort_rows [OF assms(1), of "rows df" ?key] unfolding ro by blast
  have "mset (rows out) = mset (filter (\<lambda>r. ?key r \<noteq> NaN) (rows df)) +
      mset (filter (\<lambda>r. \<not> ?key r \<noteq> NaN) (rows df))"
    by (simp add: pr m)
  also have "\<dots> = mset (rows df)"
    unfolding mset_filter by (rule multiset_partition [symmetric])
  finally have ms: "mset (rows out) = mset (rows df)" .
  have nm: "\<exists>x. ?key r = Num x" if "r \<in> set present" for r
  proof -
    have "r \<in> set (filter (\<lambda>r. ?key r \<noteq> NaN) (rows df))"
      using that m by (metis set_mset_mset)
    then have r: "r \<in> set (rows df)" "?key r \<noteq> NaN"
      by simp_all
    have "\<not> is_Str (?key r)"
      using ns r(1) by (auto simp: filter_empty_conv column_def)
    then show ?thesis
      using r(2) by (cases "?key r") simp_all
  qed
  show ?thesis
    using co ms pr nm s by blast
qed

text \<open>
  C2, as stated, fails: \<open>sort_values\<close> is called with the default kind, which is not
  stable. The routine \<open>argsort_mirror\<close> keeps numpy's promise, and with it the ranking of
  \<open>two_pairs_processed\<close> by \<open>Avg_MPO\<close> puts the row labelled 3 before the row labelled 2
  and the row labelled 1 before the row labelled 0, although each two have equal keys.
\<close>

theorem ranking_not_stable:
  "argsort_ok [0.9, 0.9, 0.5, 0.5] (argsort_mirror [0.9, 0.9, 0.5, 0.5]) \<and>
   column two_pairs_processed ''Avg_MPO'' = [Num 0.5, Num 0.5, Num 0.9, Num 0.9] \<and>
   labels two_pairs_processed = [0, 1, 2, 3] \<and>
   map_sum id labels (df_sorted_mpo argsort_mirror two_pairs_processed) = Inr [3, 2, 1, 0]"
proof -
  have u: "[0..<4] = [0, 1, 2, 3]"
    by (simp add: upt_rec)
  have a: "argsort_mirror [0.9, 0.9, 0.5, 0.5] = [3, 2, 1, 0]"
    by (simp add: argsort_mirror_def u)
  have a': "argsort_mirror [9 / 10, 9 / 10, 1 / 2, 1 / 2] = [3, 2, 1, 0]"
    using a by simp
  have n: "nargsort argsort_mirror [Num 0.5, Num 0.5, Num 0.9, Num 0.9] = [3, 2, 1, 0]"
    by (simp add: nargsort_def u a')
  have n': "nargsort argsort_mirror [Num (1 / 2), Num (1 / 2), Num (9 / 10), Num (9 / 10)] =
      [3, 2, 1, 0]"
    using n by simp
  have c: "column two_pairs_processed ''Avg_MPO'' = [Num 0.5, Num 0.5, Num 0.9, Num 0.9]"
    by (simp add: two_pairs_processed_def column_def cell_at_def output_row_def input_row_def)
  have l: "labels two_pairs_processed = [0, 1, 2, 3]"
    by (simp add: two_pairs_processed_def labels_def output_row_def input_row_def)
  have "map_sum id labels (df_sorted_mpo argsort_mirror two_pairs_processed) = Inr [3, 2, 1, 0]"
    by (simp add: two_pairs_processed_def labels_def rank_defs n')
  then show ?thesis
    using argsort_mirror_ok c l by simp
qed


theorem sort_values_ranking_witness:
  "\<exists>out. sort_values argsort_stable ''Avg_MPO'' missing_score_processed = Inr out \<and>
      column missing_score_processed ''Avg_MPO'' = [NaN, NaN, Num 0.8, Num 0.8] \<and>
      labels out = [2, 3, 0, 1] \<and>
      mset (rows out) = mset (rows missing_score_processed)"
proof -
  have u: "[0..<2] = [0, 1]" "[0..<4] = [0, 1, 2, 3]"
    by (simp_all add: upt_rec)
  have a: "argsort_stable [4 / 5, 4 / 5] = [0, 1]"
    by (simp add: argsort_stable_def u)
  have n: "nargsort argsort_stable [NaN, NaN, Num (4 / 5), Num (4 / 5)] = [2, 3, 0, 1]"
    by (simp add: nargsort_def u a)
  have c: "column missing_score_processed ''Avg_MPO'' = [NaN, NaN, Num 0.8, Num 0.8]"
    by (simp add: missing_score_processed_def column_def cell_at_def output_row_def input_row_def)
  obtain out where o: "sort_values argsort_stable ''Avg_MPO'' missing_score_processed = Inr out"
    and l: "labels out = [2, 3, 0, 1]"
    by (simp add: missing_score_processed_def labels_def rank_defs n)
  have k: "\<forall>ks. argsort_ok ks (argsort_stable ks)"
    using argsort_stable_ok by blast
  show ?thesis
    using sort_values_ranking [OF k o] o l c by blast
qed

section \<open>Any group that is not a pair\<close>

text \<open>
  The failure on the scenario is not particular to it: whenever a validated table has a group
  whose size is not 2, no aggregated table is built and the run ends with an exception before
  any file is written (the constructor's, unless a pair with a string score raises first).
\<close>

lemma process_group_not_pair: "length members \<noteq> 2 \<Longrightarrow> process_group members = Inr [Frame members]"
  by (induction members rule: process_group.induct) simp_all

lemma series_of_append_None:
  "series_of cs = None \<or> series_of ds = None \<Longrightarrow> series_of (cs @ ds) = None"
proof (induction cs)
  case Nil
  then show ?case by simp
next
  case (Cons c cs)
  then show ?case
    by (cases c) auto
qed

lemma processed_rows_frame:
  assumes "(name, members) \<in> set gs" and "length members \<noteq> 2"
    and "processed_rows gs = Inr data"
  shows "series_of data = None"
  using assms
proof (induction gs arbitrary: data)
  case Nil
  then show ?case by simp
next
  case (Cons g gs)
  obtain n ms where g: "g = (n, ms)"
    by (cases g)
  obtain cs rest where c: "process_group ms = Inr cs" and r: "processed_rows gs = Inr rest"
    and d: "data = cs @ rest"
    using Cons.prems(3) by (auto simp: g split: sum.splits)
  show ?case
  proof (cases "(name, members) = g")
    case True
    then have "cs = [Frame members]"
      using c g process_group_not_pair [OF Cons.prems(2)] by simp
    then show ?thesis by (simp add: d)
  next
    case False
    then have "series_of rest = None"
      using Cons.IH [OF _ Cons.prems(2) r] Cons.prems(1) by simp
    then show ?thesis
      by (simp add: d series_of_append_None)
  qed
qed

lemma non_pair_group_stops_run:
  assumes "validate df = Inr df" and "groupby ''Title'' df = Inr gs"
    and "(name, members) \<in> set gs" and "length members \<noteq> 2"
  shows "\<exists>e. processed_df df = Inl e \<and>
             run argsort search df = \<lparr>written = [], printed = [], raised = Some e\<rparr>"
proof (cases "processed_rows gs")
  case (Inl e)
  then show ?thesis
    using assms(1,2) by (simp add: processed_df_def run_def stop_def)
next
  case (Inr data)
  then have "DataFrame data = Inl ConstructorError"
    using processed_rows_frame [OF assms(3,4)] by (simp add: DataFrame_def)
  then show ?thesis
    using Inr assms(1,2) by (simp add: processed_df_def run_def stop_def)
qed

end
